theory Spec2Isabelle
  imports Complex_Main
begin

section \<open>The job tracker of src/lib/job-tracker.ts\<close>

text \<open>
  The tracker keeps generation jobs in an in-memory map, polls the provider's status
  endpoint for every job that is still polling, and sends two callbacks to the messaging
  platform when a job completes. This theory embeds \<open>checkJobStatus\<close>,
  \<open>sendCallback\<close>, \<open>pollAllJobs\<close>, \<open>addJob\<close>, \<open>getJob\<close> and
  \<open>getAllJobs\<close> as functions over explicit state and proves or refutes the
  properties the specification states about them. The repository also holds an earlier
  copy of the tracker, with other constants and without the delay between the callbacks;
  the module embedded here is the one the status endpoint imports and the specification
  follows. Line numbers are those of src/lib/job-tracker.ts.
\<close>

subsection \<open>Constants\<close>

definition POLL_INTERVAL_MS :: nat where
  "POLL_INTERVAL_MS = 20000"

definition MAX_POLL_ATTEMPTS :: nat where
  "MAX_POLL_ATTEMPTS = 30"

definition CALLBACK_2_DELAY_MS :: nat where
  "CALLBACK_2_DELAY_MS = 15000"

subsection \<open>Values of the provider's status document\<close>

text \<open>
  A JavaScript string is a sequence of UTF-16 code units and may hold a surrogate that
  has no partner. Here a string is a list whose elements are the bytes of its
  well-formed text and, where the string has one, an unpaired surrogate.
  \<open>JText\<close> is a string of well-formed text.
\<close>

datatype jchar = Ch char | LoneSurrogate

text \<open>
  The payload is whatever \<open>response.json()\<close> parsed. An object is listed by its
  bindings and a property is read with \<open>map_of\<close>; a property that is missing reads as
  \<open>None\<close>, which stands for JavaScript's \<open>undefined\<close>. The tracker compares
  property names with names of its own only, so the names are plain text.
\<close>

datatype json =
    JNull
  | JBool bool
  | JNum rat
  | JStr "jchar list"
  | JArr "json list"
  | JObj "(string \<times> json) list"

abbreviation JText :: "string \<Rightarrow> json" where
  "JText s \<equiv> JStr (map Ch s)"

text \<open>JavaScript truthiness: what \<open>Boolean(v)\<close>, \<open>v && _\<close> and \<open>v || _\<close> test.\<close>

fun truthy :: "json \<Rightarrow> bool" where
  "truthy JNull = False"
| "truthy (JBool b) = b"
| "truthy (JNum n) = (n \<noteq> 0)"
| "truthy (JStr s) = (s \<noteq> [])"
| "truthy (JArr xs) = True"
| "truthy (JObj kvs) = True"

fun truthy_opt :: "json option \<Rightarrow> bool" where
  "truthy_opt None = False"
| "truthy_opt (Some v) = truthy v"

text \<open>\<open>payload?.k\<close>: only an object has the properties the tracker reads.\<close>

fun getProp :: "json \<Rightarrow> string \<Rightarrow> json option" where
  "getProp (JObj kvs) k = map_of kvs k"
| "getProp v k = None"

text \<open>\<open>a || b\<close>\<close>

definition js_or :: "json option \<Rightarrow> json option \<Rightarrow> json option" where
  "js_or a b = (if truthy_opt a then a else b)"

fun isArray :: "json option \<Rightarrow> bool" where
  "isArray (Some (JArr xs)) = True"
| "isArray v = False"

fun elems :: "json option \<Rightarrow> json list" where
  "elems (Some (JArr xs)) = xs"
| "elems v = []"

subsection \<open>Conversion of a value to text\<close>

text \<open>
  A template literal and \<open>encodeURIComponent\<close> convert their argument to a string.
  That conversion throws a TypeError on an object that has a property \<open>toString\<close>
  of its own (a parsed value is never callable, and \<open>valueOf\<close> gives the object
  back), and on an array that holds such an object, since an array is converted by
  joining the conversions of its elements. Every other value converts:
  \<open>undefined\<close>, \<open>null\<close>, booleans, numbers, strings, and an object without
  \<open>toString\<close>, which gives \<^verbatim>\<open>[object Object]\<close>.
\<close>

fun convertible :: "json \<Rightarrow> bool" where
  "convertible (JObj kvs) = (map_of kvs ''toString'' = None)"
| "convertible (JArr xs) = list_all convertible xs"
| "convertible v = True"

fun convertible_opt :: "json option \<Rightarrow> bool" where
  "convertible_opt None = True"
| "convertible_opt (Some v) = convertible v"

text \<open>
  \<open>encodeURIComponent\<close> throws a URIError when the text it is given holds an
  unpaired surrogate. The text of a string is the string; the text of an array joins
  the texts of its elements with commas, so it holds one exactly when one of them does;
  the text of any other value holds none.
\<close>

fun wellFormed :: "json \<Rightarrow> bool" where
  "wellFormed (JStr s) = (LoneSurrogate \<notin> set s)"
| "wellFormed (JArr xs) = list_all wellFormed xs"
| "wellFormed v = True"

subsection \<open>Extraction of the image list (lines 77 to 90)\<close>

text \<open>
  The callback of \<open>payload.images.map\<close>:
  \<^verbatim>\<open>typeof img === "object" && img.url ? img.url : (typeof img === "string" ? img : "")\<close>.
  \<open>typeof null\<close> is \<open>"object"\<close>, so a \<open>null\<close> element reads \<open>null.url\<close> and
  throws a TypeError: the result \<open>None\<close>. An array is an object without \<open>url\<close>.
\<close>

fun mapImg :: "json \<Rightarrow> json option" where
  "mapImg JNull = None"
| "mapImg (JObj kvs) =
     (case map_of kvs ''url'' of
        None \<Rightarrow> Some (JStr [])
      | Some u \<Rightarrow> Some (if truthy u then u else JStr []))"
| "mapImg (JArr xs) = Some (JStr [])"
| "mapImg (JStr s) = Some (JStr s)"
| "mapImg (JBool b) = Some (JStr [])"
| "mapImg (JNum n) = Some (JStr [])"

fun mapImages :: "json list \<Rightarrow> json list option" where
  "mapImages [] = Some []"
| "mapImages (x # xs) =
     (case mapImg x of
        None \<Rightarrow> None
      | Some u \<Rightarrow> (case mapImages xs of None \<Rightarrow> None | Some us \<Rightarrow> Some (u # us)))"

text \<open>
  The if / else-if chain over \<open>images\<close>, \<open>image_urls\<close>, \<open>outputs\<close> and
  \<open>result\<close>. \<open>None\<close> is the TypeError of \<open>mapImg\<close>.
\<close>

definition extractImages :: "json \<Rightarrow> json list option" where
  "extractImages payload =
     (if truthy_opt (getProp payload ''images'') \<and> isArray (getProp payload ''images'')
      then map_option (filter truthy) (mapImages (elems (getProp payload ''images'')))
      else if truthy_opt (getProp payload ''image_urls'')
      then Some (if isArray (getProp payload ''image_urls'')
                 then elems (getProp payload ''image_urls'') else [])
      else if truthy_opt (getProp payload ''outputs'')
      then Some (if isArray (getProp payload ''outputs'')
                 then elems (getProp payload ''outputs'') else [])
      else if truthy_opt (getProp payload ''result'')
      then Some (if isArray (getProp payload ''result'')
                 then elems (getProp payload ''result'') else [])
      else Some [])"

subsection \<open>Jobs\<close>

datatype JobStatus = Polling | Succeeded | Failed | Cancelled

text \<open>
  Times are milliseconds since the epoch. \<open>images\<close> and \<open>error\<close> are declared
  \<open>string[]\<close> and \<open>string\<close> but receive whatever the payload holds, so they are
  JSON values here. The three identifiers are the arguments of \<open>addJob\<close> and are
  strings as declared.
\<close>

record Job =
  requestId :: string
  contactId :: string
  userId :: string
  status :: JobStatus
  pollCount :: nat
  images :: "json list"
  createdAt :: int
  completedAt :: "int option"
  error :: "json option"

subsection \<open>The outside world\<close>

text \<open>
  What one status request brings back: \<open>fetch\<close> throws, or there is a response with
  its \<open>ok\<close> flag and its body; the body \<open>None\<close> is one that \<open>response.json()\<close>
  rejects, which line 63 turns into the payload \<open>null\<close>.
\<close>

datatype probe = FetchError | Response bool "json option"

text \<open>What a callback request brings back: \<open>fetch\<close> throws, or a response with its \<open>ok\<close> flag.\<close>

datatype reply = Threw | Replied bool

text \<open>The three environment variables \<open>sendCallback\<close> reads.\<close>

record Env =
  CHATGPT_BUILDER_TOKEN :: "string option"
  CHATGPT_BUILDER_CUSTOM_FIELD_ID :: "string option"
  CHATGPT_BUILDER_FLOW_ID :: "string option"

text \<open>\<open>process.env.X || "default"\<close>: an unset or empty variable gives the default.\<close>

fun envOr :: "string option \<Rightarrow> string \<Rightarrow> string" where
  "envOr None d = d"
| "envOr (Some s) d = (if s = [] then d else s)"

text \<open>
  The trace of \<open>sendCallback\<close>: its entry, its outbound requests (URL, access token,
  body), the start of its delay and its result lines on the console. \<open>FormValue v\<close>
  is the body \<^verbatim>\<open>value=${encodeURIComponent(v)}\<close>.
\<close>

datatype body = FormValue json | NoBody

datatype event =
    Enter string
  | Fetch string string body
  | Delay nat
  | ConsoleLog string
  | ConsoleError string

fun isFetch :: "event \<Rightarrow> bool" where
  "isFetch (Fetch url tok b) = True"
| "isFetch e = False"

fun isEnter :: "event \<Rightarrow> bool" where
  "isEnter (Enter r) = True"
| "isEnter e = False"

subsection \<open>sendCallback (lines 129 to 227)\<close>

definition customFieldUrl :: "Env \<Rightarrow> Job \<Rightarrow> string" where
  "customFieldUrl env job =
     ''https://app.chatgptbuilder.io/api/contacts/'' @ contactId job @ ''/custom_fields/''
       @ envOr (CHATGPT_BUILDER_CUSTOM_FIELD_ID env) ''871218''"

definition triggerFlowUrl :: "Env \<Rightarrow> Job \<Rightarrow> string" where
  "triggerFlowUrl env job =
     ''https://app.chatgptbuilder.io/api/contacts/'' @ contactId job @ ''/send/''
       @ envOr (CHATGPT_BUILDER_FLOW_ID env) ''1760629479392''"

definition accessToken :: "Env \<Rightarrow> string" where
  "accessToken env = envOr (CHATGPT_BUILDER_TOKEN env) ''1234372.w5LIIOK11XiUEEU4X6qnzjvwE7YXpQ0x''"

text \<open>The three outcomes of each try block: response ok, response not ok, exception.\<close>

fun callbackLine :: "string \<Rightarrow> reply \<Rightarrow> event" where
  "callbackLine n (Replied True) = ConsoleLog (''CALLBACK '' @ n @ '' SUCCESS'')"
| "callbackLine n (Replied False) = ConsoleError (''CALLBACK '' @ n @ '' FAILED'')"
| "callbackLine n Threw = ConsoleError (''CALLBACK '' @ n @ '' ERROR'')"

text \<open>
  \<open>sendCallback\<close> returns, or throws outside its try blocks and before its first
  request: a TypeError where the template literal of line 142 converts the first image,
  or a URIError where \<open>encodeURIComponent\<close> encodes it at line 150. Either way the
  result carries the trace up to there.
\<close>

datatype completion = Returned | Thrown

definition sendCallback :: "Env \<Rightarrow> Job \<Rightarrow> reply \<Rightarrow> reply \<Rightarrow> completion \<times> event list" where
  "sendCallback env job r1 r2 =
     (case images job of
        [] \<Rightarrow> (Returned, [Enter (requestId job), ConsoleError ''No images to send''])
      | imageUrl # rest \<Rightarrow>
          if convertible imageUrl \<and> wellFormed imageUrl
          then (Returned,
                [Enter (requestId job),
                 Fetch (customFieldUrl env job) (accessToken env) (FormValue imageUrl),
                 callbackLine ''1'' r1,
                 Delay CALLBACK_2_DELAY_MS,
                 Fetch (triggerFlowUrl env job) (accessToken env) NoBody,
                 callbackLine ''2'' r2])
          else (Thrown, [Enter (requestId job)]))"

subsection \<open>checkJobStatus (lines 55 to 124)\<close>

text \<open>
  The function from the moment the status request settles: \<open>now\<close> is the clock that
  \<open>new Date()\<close> reads, \<open>p\<close> what the request brought back, \<open>r1\<close> and \<open>r2\<close> what
  the two callback requests bring back if they are made. The result is the job as
  mutated and the trace of \<open>sendCallback\<close>. The template literal of line 92 converts
  the status to text and can throw like the reading of the images before it; both
  happen before the job is touched. An exception of \<open>sendCallback\<close> reaches the
  catch block like any other, after the job was set succeeded.
\<close>

definition bump :: "Job \<Rightarrow> Job" where
  "bump job = job\<lparr>pollCount := pollCount job + 1\<rparr>"

definition statusOf :: "json \<Rightarrow> json option" where
  "statusOf payload = js_or (getProp payload ''status'') (getProp payload ''state'')"

definition errorOf :: "json \<Rightarrow> jchar list \<Rightarrow> json" where
  "errorOf payload st =
     (case js_or (js_or (getProp payload ''error'') (getProp payload ''message''))
                 (Some (JStr (map Ch ''Generation '' @ st))) of
        None \<Rightarrow> JStr (map Ch ''Generation '' @ st)
      | Some v \<Rightarrow> v)"

text \<open>The payload of line 63, the test of line 95 and the test of line 103.\<close>

definition payloadOf :: "json option \<Rightarrow> json" where
  "payloadOf b = (case b of None \<Rightarrow> JNull | Some v \<Rightarrow> v)"

definition isSuccess :: "json \<Rightarrow> bool" where
  "isSuccess payload =
     (statusOf payload = Some (JText ''completed'') \<or> statusOf payload = Some (JText ''succeeded''))"

definition isFailure :: "json \<Rightarrow> bool" where
  "isFailure payload =
     (statusOf payload = Some (JText ''failed'') \<or> statusOf payload = Some (JText ''error'')
      \<or> statusOf payload = Some (JText ''cancelled''))"

definition checkJobStatus :: "Env \<Rightarrow> int \<Rightarrow> probe \<Rightarrow> reply \<Rightarrow> reply \<Rightarrow> Job \<Rightarrow> Job \<times> event list" where
  "checkJobStatus env now p r1 r2 job =
     (case p of
        FetchError \<Rightarrow> (bump job, [])
      | Response ok b \<Rightarrow>
          if \<not> ok then (bump job, [])
          else
            (case extractImages (payloadOf b) of
               None \<Rightarrow> (bump job, [])
             | Some imgs \<Rightarrow>
                 if \<not> convertible_opt (statusOf (payloadOf b)) then (bump job, [])
                 else if isSuccess (payloadOf b)
                 then
                   (let job' = job\<lparr>status := Succeeded, images := imgs,
                                    completedAt := Some now\<rparr>
                    in (case sendCallback env job' r1 r2 of
                          (Returned, es) \<Rightarrow> (job', es)
                        | (Thrown, es) \<Rightarrow> (bump job', es)))
                 else if isFailure (payloadOf b)
                 then
                   (job\<lparr>status := Failed,
                        error := Some (errorOf (payloadOf b)
                                  (case statusOf (payloadOf b) of Some (JStr s) \<Rightarrow> s | _ \<Rightarrow> [])),
                        completedAt := Some now\<rparr>, [])
                 else
                   (let job' = bump job in
                    if pollCount job' \<ge> MAX_POLL_ATTEMPTS
                    then (job'\<lparr>status := Failed,
                               error := Some (JText ''Polling timeout - max attempts reached''),
                               completedAt := Some now\<rparr>, [])
                    else (job', []))))"

subsection \<open>The job map, addJob, getJob, getAllJobs (lines 25 and 269 to 309)\<close>

text \<open>
  The \<open>Map\<close> of jobs in insertion order. \<open>jobs.set\<close> replaces the value of a key
  that is present, where it stands, and appends a new key.
\<close>

type_synonym JobMap = "(string \<times> Job) list"

fun jobs_set :: "string \<Rightarrow> Job \<Rightarrow> JobMap \<Rightarrow> JobMap" where
  "jobs_set k v [] = [(k, v)]"
| "jobs_set k v (e # es) = (if fst e = k then (k, v) # es else e # jobs_set k v es)"

definition jobs_delete :: "string \<Rightarrow> JobMap \<Rightarrow> JobMap" where
  "jobs_delete k m = filter (\<lambda>e. fst e \<noteq> k) m"

definition newJob :: "int \<Rightarrow> string \<Rightarrow> string \<Rightarrow> string \<Rightarrow> Job" where
  "newJob now rid cid uid =
     \<lparr>requestId = rid, contactId = cid, userId = uid, status = Polling, pollCount = 0,
      images = [], createdAt = now, completedAt = None, error = None\<rparr>"

text \<open>
  The tracker: the job map, whether the interval timer is set, and the request ids whose
  first check (the \<open>setTimeout\<close> of 5000 ms) is still to fire.
\<close>

record Tracker =
  jobs :: JobMap
  pollInterval :: bool
  firstChecks :: "string list"

definition startPolling :: "Tracker \<Rightarrow> Tracker" where
  "startPolling t = (if pollInterval t then t else t\<lparr>pollInterval := True\<rparr>)"

definition addJob :: "int \<Rightarrow> string \<Rightarrow> string \<Rightarrow> string \<Rightarrow> Tracker \<Rightarrow> Job \<times> Tracker" where
  "addJob now rid cid uid t =
     (let job = newJob now rid cid uid;
          t1 = t\<lparr>jobs := jobs_set rid job (jobs t)\<rparr>;
          t2 = startPolling t1
      in (job, t2\<lparr>firstChecks := firstChecks t2 @ [rid]\<rparr>))"

definition getJob :: "string \<Rightarrow> Tracker \<Rightarrow> Job option" where
  "getJob rid t = map_of (jobs t) rid"

definition getAllJobs :: "Tracker \<Rightarrow> Job list" where
  "getAllJobs t = map snd (jobs t)"

subsection \<open>pollAllJobs (lines 232 to 252)\<close>

text \<open>What the world answers to one check of one job: clock, status response, callback replies.\<close>

type_synonym answer = "int \<times> probe \<times> reply \<times> reply"

definition check :: "Env \<Rightarrow> answer \<Rightarrow> Job \<Rightarrow> Job \<times> event list" where
  "check env a job =
     (case a of (now, p, r1, r2) \<Rightarrow> checkJobStatus env now p r1 r2 job)"

text \<open>
  One check of a job as both callers make it: \<open>pollAllJobs\<close> filters on
  \<open>status === "polling"\<close> (line 233) and the first check of \<open>addJob\<close> tests the same
  (line 289). This is a check that is started and runs to its end, callbacks included,
  before the next one starts.
\<close>

definition tick :: "Env \<Rightarrow> answer \<Rightarrow> Job \<Rightarrow> Job \<times> event list" where
  "tick env a job = (if status job = Polling then check env a job else (job, []))"

fun ticks :: "Env \<Rightarrow> answer list \<Rightarrow> Job \<Rightarrow> Job \<times> event list" where
  "ticks env [] job = (job, [])"
| "ticks env (a # as) job =
     (case tick env a job of (job', es) \<Rightarrow>
        (case ticks env as job' of (job'', es') \<Rightarrow> (job'', es @ es')))"

text \<open>The clean-up loop (lines 244 to 251): one hour is 3600000 ms.\<close>

definition expired :: "int \<Rightarrow> Job \<Rightarrow> bool" where
  "expired now job =
     (case completedAt job of None \<Rightarrow> False | Some t \<Rightarrow> t < now - 60 * 60 * 1000)"

definition cleanup :: "int \<Rightarrow> JobMap \<Rightarrow> JobMap" where
  "cleanup now m =
     foldl (\<lambda>acc e. if expired now (snd e) then jobs_delete (fst e) acc else acc) m m"

text \<open>
  A round in which the checks settle one after the other: \<open>world k\<close> is the answer to
  the check of the job under key \<open>k\<close>, \<open>now\<close> the clock when the clean-up runs. A
  round without a polling job returns before the clean-up (lines 235 to 237).
\<close>

definition pollAllJobs :: "Env \<Rightarrow> (string \<Rightarrow> answer) \<Rightarrow> int \<Rightarrow> Tracker \<Rightarrow> Tracker \<times> event list" where
  "pollAllJobs env world now t =
     (if filter (\<lambda>e. status (snd e) = Polling) (jobs t) = [] then (t, [])
      else
        (t\<lparr>jobs := cleanup now (map (\<lambda>e. (fst e, fst (tick env (world (fst e)) (snd e)))) (jobs t))\<rparr>,
         concat (map (\<lambda>e. snd (tick env (world (fst e)) (snd e))) (jobs t))))"

text \<open>The first check that \<open>addJob\<close> schedules (lines 287 to 292), when it fires.\<close>

definition firstCheck :: "Env \<Rightarrow> answer \<Rightarrow> string \<Rightarrow> Tracker \<Rightarrow> Tracker \<times> event list" where
  "firstCheck env a rid t =
     (case map_of (jobs t) rid of
        None \<Rightarrow> (t\<lparr>firstChecks := remove1 rid (firstChecks t)\<rparr>, [])
      | Some j \<Rightarrow>
          (t\<lparr>jobs := jobs_set rid (fst (tick env a j)) (jobs t),
             firstChecks := remove1 rid (firstChecks t)\<rparr>,
           snd (tick env a j)))"

text \<open>
  The operations that change the tracker, and the trackers they build from the empty
  one.
\<close>

datatype operation =
    AddJob int string string string
  | PollAllJobs "string \<Rightarrow> answer" int
  | FirstCheck answer string

fun perform :: "Env \<Rightarrow> Tracker \<Rightarrow> operation \<Rightarrow> Tracker" where
  "perform env t (AddJob now rid cid uid) = snd (addJob now rid cid uid t)"
| "perform env t (PollAllJobs world now) = fst (pollAllJobs env world now t)"
| "perform env t (FirstCheck a rid) = fst (firstCheck env a rid t)"

definition emptyTracker :: Tracker where
  "emptyTracker = \<lparr>jobs = [], pollInterval = False, firstChecks = []\<rparr>"

definition built :: "Env \<Rightarrow> operation list \<Rightarrow> Tracker" where
  "built env ops = foldl (perform env) emptyTracker ops"

subsection \<open>Checks in flight\<close>

text \<open>
  \<open>checkJobStatus\<close> tests nothing itself: the test \<open>status === "polling"\<close> is made by
  its callers before the status request is sent, and the job is mutated when the request
  settles. The interval timer and the first check of \<open>addJob\<close> are independent, and the
  interval fires whether or not the last round has settled, so several checks of one job
  can be in flight.

  Code runs without interruption from one await to the next. \<open>sendCallback\<close> awaits
  each of its two requests and its timer, so its trace falls into pieces that end where
  a request has been sent or the timer has been set: \<open>cut\<close> gives the pieces.
\<close>

fun awaits :: "event \<Rightarrow> bool" where
  "awaits (Fetch url tok b) = True"
| "awaits (Delay n) = True"
| "awaits e = False"

fun cut :: "event list \<Rightarrow> event list list" where
  "cut [] = []"
| "cut (e # es) =
     (if awaits e then [e] # cut es
      else (case cut es of [] \<Rightarrow> [[e]] | s # ss \<Rightarrow> (e # s) # ss))"

text \<open>
  \<open>Begin\<close> is a caller's test and the sending of the status request. \<open>Settle\<close> is
  \<open>checkJobStatus\<close> from the moment its status request settles up to the first await
  of \<open>sendCallback\<close>: the mutation of the job and the first piece of the trace; the
  pieces that remain are parked. \<open>Resume i\<close> runs the next piece of the \<open>i\<close>-th
  parked \<open>sendCallback\<close>, when what it awaited has arrived. The state is the job, the
  number of status requests in flight, the parked pieces, and the trace so far.
\<close>

datatype action = Begin | Settle answer | Resume nat

type_synonym flight = "Job \<times> nat \<times> event list list list \<times> event list"

definition park :: "event list list \<Rightarrow> event list list list \<Rightarrow> event list list list" where
  "park ss ths = (if ss = [] then ths else ths @ [ss])"

fun act :: "Env \<Rightarrow> flight \<Rightarrow> action \<Rightarrow> flight" where
  "act env (job, n, ths, tr) Begin =
     (if status job = Polling then (job, Suc n, ths, tr) else (job, n, ths, tr))"
| "act env (job, 0, ths, tr) (Settle a) = (job, 0, ths, tr)"
| "act env (job, Suc n, ths, tr) (Settle a) =
     (case check env a job of (job', es) \<Rightarrow>
        (case cut es of
           [] \<Rightarrow> (job', n, ths, tr)
         | s # ss \<Rightarrow> (job', n, park ss ths, tr @ s)))"
| "act env (job, n, ths, tr) (Resume i) =
     (if i < length ths
      then (case ths ! i of
              [] \<Rightarrow> (job, n, take i ths @ drop (Suc i) ths, tr)
            | s # ss \<Rightarrow>
                (job, n,
                 (if ss = [] then take i ths @ drop (Suc i) ths else ths[i := ss]),
                 tr @ s))
      else (job, n, ths, tr))"

definition run :: "Env \<Rightarrow> action list \<Rightarrow> Job \<Rightarrow> flight" where
  "run env acts job = foldl (act env) (job, 0, [], []) acts"

subsection \<open>Auxiliary notions for the properties\<close>

text \<open>An environment with none of the three variables set.\<close>

definition env0 :: Env where
  "env0 = \<lparr>CHATGPT_BUILDER_TOKEN = None, CHATGPT_BUILDER_CUSTOM_FIELD_ID = None,
            CHATGPT_BUILDER_FLOW_ID = None\<rparr>"

text \<open>
  The two ways \<open>checkJobStatus\<close> leaves through its failure paths before it has
  touched the job: the early return on a response that is not ok (lines 65 to 69), and
  the catch block (lines 120 to 123), reached when \<open>fetch\<close> throws, when reading the
  images throws or when printing the status throws. (An exception of \<open>sendCallback\<close>
  reaches the catch block too, but after the job was mutated; it is not among these.)
\<close>

fun transient :: "probe \<Rightarrow> bool" where
  "transient FetchError = True"
| "transient (Response ok b) =
     (if ok
      then extractImages (payloadOf b) = None \<or> \<not> convertible_opt (statusOf (payloadOf b))
      else True)"

text \<open>A job that succeeded with one image at the given time.\<close>

definition settledJob :: "int \<Rightarrow> Job" where
  "settledJob now = (newJob 0 ''job-1'' ''c-1'' ''u-1'')\<lparr>status := Succeeded,
      images := [JText ''https://x/out.png''], completedAt := Some now\<rparr>"

text \<open>
  A response that is ok, whose images can be read and whose status can be printed, and
  whose status is none of the five words of lines 95 and 103: the branch "still
  processing" of line 108.
\<close>

fun running :: "probe \<Rightarrow> bool" where
  "running FetchError = False"
| "running (Response ok b) =
     (ok \<and> extractImages (payloadOf b) \<noteq> None \<and> convertible_opt (statusOf (payloadOf b))
         \<and> \<not> isSuccess (payloadOf b) \<and> \<not> isFailure (payloadOf b))"

text \<open>Answers of the world used as examples.\<close>

definition stillRunning :: answer where
  "stillRunning = (3, Response True (Some (JObj [(''status'', JText ''processing'')])),
       Replied True, Replied True)"

definition completedEmpty :: answer where
  "completedEmpty = (7, Response True (Some (JObj [(''status'', JText ''completed'')])),
       Replied True, Replied True)"

definition completedOne :: answer where
  "completedOne = (7, Response True (Some (JObj [(''status'', JText ''completed''),
       (''images'', JArr [JObj [(''url'', JText ''https://x/out.png'')]])])),
       Replied True, Replied True)"

text \<open>
  A completed response whose only image is a string made of one unpaired surrogate, as
  the JSON text \<^verbatim>\<open>"\ud800"\<close> parses.
\<close>

definition completedSurrogate :: answer where
  "completedSurrogate = (7, Response True (Some (JObj [(''status'', JText ''completed''),
       (''image_urls'', JArr [JStr [LoneSurrogate]])])),
       Replied True, Replied True)"

text \<open>A tracker that holds one job, settled at time 999, and no polling job.\<close>

definition idleTracker :: Tracker where
  "idleTracker = \<lparr>jobs = [(''job-1'', settledJob 999)], pollInterval = True, firstChecks = []\<rparr>"

text \<open>
  A tracker with a job settled at time 1000, a job settled at time 999 and a polling job.
\<close>

definition busyTracker :: Tracker where
  "busyTracker = \<lparr>jobs = [(''a'', settledJob 1000), (''b'', settledJob 999),
                           (''c'', newJob 5 ''c'' ''c-1'' ''u-1'')],
                   pollInterval = True, firstChecks = []\<rparr>"

subsection \<open>The extraction as the specification words it\<close>

text \<open>
  The specification describes four shapes checked in order, (a) a list of objects each
  exposing a location field, (b), (c) and (d) a list of locations under a first, second
  and third field name, of which the first that is present and non-empty wins, the
  result being empty if none matches. \<open>locations\<close> is shape (a) and
  \<open>firstNonEmpty\<close> the choice among the four.
\<close>

definition locations :: "json \<Rightarrow> json list" where
  "locations payload =
     concat (map (\<lambda>x. case x of
                        JObj kvs \<Rightarrow> (case map_of kvs ''url'' of None \<Rightarrow> [] | Some u \<Rightarrow> [u])
                      | _ \<Rightarrow> [])
                 (elems (getProp payload ''images'')))"

definition firstNonEmpty :: "json \<Rightarrow> json list" where
  "firstNonEmpty payload =
     (case filter (\<lambda>xs. xs \<noteq> [])
             [locations payload, elems (getProp payload ''image_urls''),
              elems (getProp payload ''outputs''), elems (getProp payload ''result'')] of
        [] \<Rightarrow> []
      | xs # rest \<Rightarrow> xs)"

section \<open>Properties\<close>

subsection \<open>The job map\<close>

lemma map_of_jobs_set: "map_of (jobs_set k v m) = (map_of m)(k \<mapsto> v)"
  by (induction m) (auto simp: fun_eq_iff)

lemma keys_jobs_set_present:
  "k \<in> set (map fst m) \<Longrightarrow> map fst (jobs_set k v m) = map fst m"
  by (induction m) auto

lemma keys_jobs_set_absent:
  "k \<notin> set (map fst m) \<Longrightarrow> jobs_set k v m = m @ [(k, v)]"
  by (induction m) auto

lemma distinct_jobs_set: "distinct (map fst m) \<Longrightarrow> distinct (map fst (jobs_set k v m))"
  by (cases "k \<in> set (map fst m)") (simp_all add: keys_jobs_set_present keys_jobs_set_absent)

text \<open>
  The loop deletes by key while it walks the entries; on a map, whose keys are distinct,
  that removes exactly the expired entries.
\<close>

lemma cleanup_foldl:
  "foldl (\<lambda>acc e. if expired now (snd e) then jobs_delete (fst e) acc else acc) acc xs
   = filter (\<lambda>e. \<not> (\<exists>x \<in> set xs. expired now (snd x) \<and> fst x = fst e)) acc"
proof (induction xs arbitrary: acc)
  case Nil
  then show ?case by simp
next
  case (Cons x xs)
  show ?case
    by (simp add: Cons.IH jobs_delete_def) (auto intro: filter_cong)
qed

lemma cleanup_filter:
  assumes "distinct (map fst m)"
  shows "cleanup now m = filter (\<lambda>e. \<not> expired now (snd e)) m"
proof -
  have "(\<exists>x \<in> set m. expired now (snd x) \<and> fst x = fst e) = expired now (snd e)"
    if "e \<in> set m" for e
  proof -
    have "x = e" if "x \<in> set m" "fst x = fst e" for x
      using assms that \<open>e \<in> set m\<close> by (metis eq_key_imp_eq_value prod.collapse)
    then show ?thesis using that by auto
  qed
  then have "filter (\<lambda>e. \<not> (\<exists>x \<in> set m. expired now (snd x) \<and> fst x = fst e)) m
      = filter (\<lambda>e. \<not> expired now (snd e)) m"
    by (intro filter_cong) simp_all
  then show ?thesis
    by (simp only: cleanup_def cleanup_foldl)
qed

text \<open>The keys of the job map stay distinct under every operation of the tracker.\<close>

lemma distinct_addJob:
  "distinct (map fst (jobs t)) \<Longrightarrow> distinct (map fst (jobs (snd (addJob now rid cid uid t))))"
  by (simp add: addJob_def Let_def startPolling_def distinct_jobs_set)

lemma distinct_firstCheck:
  "distinct (map fst (jobs t)) \<Longrightarrow> distinct (map fst (jobs (fst (firstCheck env a rid t))))"
  by (simp add: firstCheck_def distinct_jobs_set split: option.splits)

lemma distinct_pollAllJobs:
  assumes "distinct (map fst (jobs t))"
  shows "distinct (map fst (jobs (fst (pollAllJobs env world now t))))"
proof -
  let ?m = "map (\<lambda>e. (fst e, fst (tick env (world (fst e)) (snd e)))) (jobs t)"
  have d: "distinct (map fst ?m)" using assms by (simp add: comp_def)
  then have "distinct (map fst (cleanup now ?m))"
    by (simp only: cleanup_filter [OF d] distinct_map_filter)
  then show ?thesis using assms by (simp add: pollAllJobs_def)
qed

lemma distinct_built: "distinct (map fst (jobs (built env ops)))"
proof -
  have "distinct (map fst (jobs t)) \<Longrightarrow> distinct (map fst (jobs (foldl (perform env) t ops)))"
    for t
  proof (induction ops arbitrary: t)
    case Nil
    then show ?case by simp
  next
    case (Cons op ops)
    have "distinct (map fst (jobs (perform env t op)))"
      using Cons.prems
      by (cases op) (simp_all add: distinct_addJob distinct_pollAllJobs distinct_firstCheck)
    then show ?case using Cons.IH by simp
  qed
  then show ?thesis by (simp add: built_def emptyTracker_def)
qed

subsection \<open>The branches of a check\<close>

lemma after_sendCallback:
  "(case c of (Returned, es) \<Rightarrow> (j, es) | (Thrown, es) \<Rightarrow> (j', es))
     = (case fst c of Returned \<Rightarrow> j | Thrown \<Rightarrow> j', snd c)"
  by (cases c; cases "fst c") auto

lemma isSuccess_convertible: "isSuccess payload \<Longrightarrow> convertible_opt (statusOf payload)"
  by (auto simp: isSuccess_def)

lemma isFailure_convertible: "isFailure payload \<Longrightarrow> convertible_opt (statusOf payload)"
  by (auto simp: isFailure_def)

text \<open>The payload \<open>null\<close> of a body that does not parse has no status and no images.\<close>

lemma null_payload:
  "extractImages JNull = Some []" "statusOf JNull = None"
  "\<not> isSuccess JNull" "\<not> isFailure JNull"
  by (simp_all add: extractImages_def statusOf_def js_or_def isSuccess_def isFailure_def)

subsection \<open>Transient failures of a check\<close>

text \<open>
  C10, as stated, fails. A JSON error is not thrown: line 63 turns a body that does not
  parse into the payload \<open>null\<close>, and under a 2xx response the check goes on to the
  branch "still processing" of lines 108 to 118. For a job that has been checked 29
  times, that check sets the status failed, the error and the completion time.
\<close>

theorem unparsable_body_can_fail_the_job:
  "checkJobStatus env0 9 (Response True None) Threw Threw
      ((newJob 0 ''job-1'' ''c-1'' ''u-1'')\<lparr>pollCount := 29\<rparr>)
   = (\<lparr>requestId = ''job-1'', contactId = ''c-1'', userId = ''u-1'', status = Failed,
       pollCount = 30, images = [], createdAt = 0, completedAt = Some 9,
       error = Some (JText ''Polling timeout - max attempts reached'')\<rparr>, [])"
  by (simp add: checkJobStatus_def payloadOf_def null_payload bump_def newJob_def
      MAX_POLL_ATTEMPTS_def)

text \<open>
  C10, amended. When the status request throws, or its response is not ok, or reading
  the images or printing the status throws, \<open>checkJobStatus\<close> changes nothing in the
  job but \<open>pollCount\<close>, which grows by exactly one: status, images, error, createdAt
  and completedAt are as before, and \<open>sendCallback\<close> is not entered. The same holds
  for a 2xx response whose body does not parse, as long as the incremented poll count
  stays below \<open>MAX_POLL_ATTEMPTS\<close>.
\<close>

theorem transient_failure_frame:
  assumes "transient p \<or> (p = Response True None \<and> pollCount job + 1 < MAX_POLL_ATTEMPTS)"
  shows "checkJobStatus env now p r1 r2 job = (job\<lparr>pollCount := pollCount job + 1\<rparr>, [])
       \<and> pollCount (fst (checkJobStatus env now p r1 r2 job)) = pollCount job + 1
       \<and> status (fst (checkJobStatus env now p r1 r2 job)) = status job
       \<and> images (fst (checkJobStatus env now p r1 r2 job)) = images job
       \<and> error (fst (checkJobStatus env now p r1 r2 job)) = error job
       \<and> createdAt (fst (checkJobStatus env now p r1 r2 job)) = createdAt job
       \<and> completedAt (fst (checkJobStatus env now p r1 r2 job)) = completedAt job"
proof -
  have "checkJobStatus env now p r1 r2 job = (bump job, [])"
    using assms
  proof
    assume "transient p"
    then show ?thesis
      by (cases p) (auto simp: checkJobStatus_def split: if_splits option.splits)
  next
    assume "p = Response True None \<and> pollCount job + 1 < MAX_POLL_ATTEMPTS"
    then show ?thesis
      by (simp add: checkJobStatus_def payloadOf_def null_payload bump_def)
  qed
  then show ?thesis by (simp add: bump_def)
qed

theorem transient_failure_frame_witness:
  "transient (Response False None)
   \<and> checkJobStatus env0 5000 (Response False None) Threw Threw (newJob 0 ''job-1'' ''c-1'' ''u-1'')
     = ((newJob 0 ''job-1'' ''c-1'' ''u-1'')\<lparr>pollCount := 1\<rparr>, [])
   \<and> pollCount (newJob 0 ''job-1'' ''c-1'' ''u-1'') + 1 < MAX_POLL_ATTEMPTS
   \<and> checkJobStatus env0 5000 (Response True None) Threw Threw (newJob 0 ''job-1'' ''c-1'' ''u-1'')
     = ((newJob 0 ''job-1'' ''c-1'' ''u-1'')\<lparr>pollCount := 1\<rparr>, [])"
  using transient_failure_frame [of "Response False None" "newJob 0 ''job-1'' ''c-1'' ''u-1''"
      env0 5000 Threw Threw]
    transient_failure_frame [of "Response True None" "newJob 0 ''job-1'' ''c-1'' ''u-1''"
      env0 5000 Threw Threw]
  by (simp add: newJob_def MAX_POLL_ATTEMPTS_def)

subsection \<open>The callbacks\<close>

lemma callbackLine_not_fetch: "isFetch (callbackLine n r) = False"
  by (cases "(n, r)" rule: callbackLine.cases) simp_all

lemma outbound_sendCallback:
  "filter isFetch (snd (sendCallback env job r1 r2)) =
     (case images job of [] \<Rightarrow> []
      | u # rest \<Rightarrow>
          if convertible u \<and> wellFormed u
          then [Fetch (customFieldUrl env job) (accessToken env) (FormValue u),
                Fetch (triggerFlowUrl env job) (accessToken env) NoBody]
          else [])"
  by (simp add: sendCallback_def callbackLine_not_fetch split: list.splits)

text \<open>
  C5. \<open>sendCallback\<close> makes no outbound request for a job without images. When a
  response reports completion and no image is extracted, the job ends succeeded with an
  empty image list, and the whole trace of the check is the entry into
  \<open>sendCallback\<close> and its error line: no request goes to either endpoint.
\<close>

theorem empty_results_skip_dispatch:
  assumes "isSuccess payload" and "extractImages payload = Some []"
  shows "(images j = [] \<longrightarrow> filter isFetch (snd (sendCallback env j r1 r2)) = [])
       \<and> status (fst (checkJobStatus env now (Response True (Some payload)) r1 r2 job)) = Succeeded
       \<and> images (fst (checkJobStatus env now (Response True (Some payload)) r1 r2 job)) = []
       \<and> filter isFetch (snd (checkJobStatus env now (Response True (Some payload)) r1 r2 job)) = []
       \<and> snd (checkJobStatus env now (Response True (Some payload)) r1 r2 job)
           = [Enter (requestId job), ConsoleError ''No images to send'']"
proof -
  have a: "images j = [] \<longrightarrow> filter isFetch (snd (sendCallback env j r1 r2)) = []"
    by (simp add: outbound_sendCallback)
  have b: "checkJobStatus env now (Response True (Some payload)) r1 r2 job
      = (job\<lparr>status := Succeeded, images := [], completedAt := Some now\<rparr>,
         [Enter (requestId job), ConsoleError ''No images to send''])"
    using assms isSuccess_convertible [OF assms(1)]
    by (simp add: checkJobStatus_def payloadOf_def Let_def sendCallback_def)
  show ?thesis using a by (simp add: b)
qed

theorem empty_results_skip_dispatch_witness:
  "isSuccess (JObj [(''status'', JText ''completed'')])
   \<and> images (newJob 0 ''job-1'' ''c-1'' ''u-1'') = []
   \<and> extractImages (JObj [(''status'', JText ''completed'')]) = Some []
   \<and> status (fst (checkJobStatus env0 7 (Response True (Some (JObj [(''status'', JText ''completed'')])))
        (Replied True) (Replied True) (newJob 0 ''job-1'' ''c-1'' ''u-1''))) = Succeeded
   \<and> images (fst (checkJobStatus env0 7 (Response True (Some (JObj [(''status'', JText ''completed'')])))
        (Replied True) (Replied True) (newJob 0 ''job-1'' ''c-1'' ''u-1''))) = []
   \<and> snd (checkJobStatus env0 7 (Response True (Some (JObj [(''status'', JText ''completed'')])))
        (Replied True) (Replied True) (newJob 0 ''job-1'' ''c-1'' ''u-1''))
      = [Enter ''job-1'', ConsoleError ''No images to send'']"
proof -
  have h1: "isSuccess (JObj [(''status'', JText ''completed'')])"
    by (simp add: isSuccess_def statusOf_def js_or_def)
  have h2: "extractImages (JObj [(''status'', JText ''completed'')]) = Some []"
    by (simp add: extractImages_def)
  show ?thesis
    using h1 h2 empty_results_skip_dispatch [OF h1 h2,
        where env = env0 and j = "newJob 0 ''job-1'' ''c-1'' ''u-1''"
          and job = "newJob 0 ''job-1'' ''c-1'' ''u-1''"
          and ?r1.0 = "Replied True" and ?r2.0 = "Replied True" and now = 7]
    by (simp add: newJob_def)
qed

text \<open>
  C6, as stated, fails. A completed response whose first image is a string holding an
  unpaired surrogate makes the job succeeded with a non-empty image list, and
  \<open>sendCallback\<close> is entered for it; \<open>encodeURIComponent\<close> throws at line 150,
  outside the try blocks, and neither request is made. The catch block of
  \<open>checkJobStatus\<close> then increments the poll count of the succeeded job.
\<close>

theorem dispatch_without_requests:
  "check env0 completedSurrogate (newJob 0 ''job-1'' ''c-1'' ''u-1'')
   = (\<lparr>requestId = ''job-1'', contactId = ''c-1'', userId = ''u-1'', status = Succeeded,
       pollCount = 1, images = [JStr [LoneSurrogate]], createdAt = 0,
       completedAt = Some 7, error = None\<rparr>, [Enter ''job-1''])
   \<and> filter isFetch (snd (check env0 completedSurrogate (newJob 0 ''job-1'' ''c-1'' ''u-1''))) = []"
  by (simp add: check_def completedSurrogate_def checkJobStatus_def payloadOf_def
      extractImages_def statusOf_def js_or_def isSuccess_def sendCallback_def bump_def
      newJob_def)

text \<open>
  C6, amended. For a job with at least one image, the first of which converts to text
  that \<open>encodeURIComponent\<close> accepts, as every string of well-formed text does,
  \<open>sendCallback\<close> returns after exactly two outbound requests, whatever the replies
  are: first the custom field request carrying the first image, then its result line,
  then the delay of 15000 ms, then the flow request and its result line. A reply that is
  not ok, or an exception, puts an error line on the console; the second request is made
  all the same and no request is made again.
\<close>

theorem sendCallback_two_calls:
  assumes "images job = imageUrl # rest" and "convertible imageUrl" and "wellFormed imageUrl"
  shows "sendCallback env job r1 r2 =
          (Returned,
           [Enter (requestId job),
            Fetch (customFieldUrl env job) (accessToken env) (FormValue imageUrl),
            callbackLine ''1'' r1,
            Delay 15000,
            Fetch (triggerFlowUrl env job) (accessToken env) NoBody,
            callbackLine ''2'' r2])
       \<and> filter isFetch (snd (sendCallback env job r1 r2)) =
           [Fetch (customFieldUrl env job) (accessToken env) (FormValue imageUrl),
            Fetch (triggerFlowUrl env job) (accessToken env) NoBody]
       \<and> (r1 \<noteq> Replied True \<longrightarrow> (\<exists>s. callbackLine ''1'' r1 = ConsoleError s))
       \<and> (r2 \<noteq> Replied True \<longrightarrow> (\<exists>s. callbackLine ''2'' r2 = ConsoleError s))"
proof -
  have l: "r \<noteq> Replied True \<longrightarrow> (\<exists>s. callbackLine n r = ConsoleError s)" for r n
    by (cases "(n, r)" rule: callbackLine.cases) simp_all
  have t: "sendCallback env job r1 r2 =
          (Returned,
           [Enter (requestId job),
            Fetch (customFieldUrl env job) (accessToken env) (FormValue imageUrl),
            callbackLine ''1'' r1,
            Delay 15000,
            Fetch (triggerFlowUrl env job) (accessToken env) NoBody,
            callbackLine ''2'' r2])"
    using assms by (simp add: sendCallback_def CALLBACK_2_DELAY_MS_def)
  have f: "filter isFetch (snd (sendCallback env job r1 r2)) =
           [Fetch (customFieldUrl env job) (accessToken env) (FormValue imageUrl),
            Fetch (triggerFlowUrl env job) (accessToken env) NoBody]"
    using assms by (simp add: outbound_sendCallback)
  show ?thesis using t f l by blast
qed

theorem sendCallback_two_calls_witness:
  "images (settledJob 9) = JText ''https://x/out.png'' # []
   \<and> convertible (JText ''https://x/out.png'')
   \<and> wellFormed (JText ''https://x/out.png'')
   \<and> Threw \<noteq> Replied True \<and> Replied False \<noteq> Replied True
   \<and> sendCallback env0 (settledJob 9) Threw (Replied False) =
      (Returned,
       [Enter ''job-1'',
        Fetch ''https://app.chatgptbuilder.io/api/contacts/c-1/custom_fields/871218''
          ''1234372.w5LIIOK11XiUEEU4X6qnzjvwE7YXpQ0x'' (FormValue (JText ''https://x/out.png'')),
        ConsoleError ''CALLBACK 1 ERROR'',
        Delay 15000,
        Fetch ''https://app.chatgptbuilder.io/api/contacts/c-1/send/1760629479392''
          ''1234372.w5LIIOK11XiUEEU4X6qnzjvwE7YXpQ0x'' NoBody,
        ConsoleError ''CALLBACK 2 FAILED''])"
proof -
  have h: "images (settledJob 9) = JText ''https://x/out.png'' # []"
    by (simp add: settledJob_def)
  have c: "convertible (JText ''https://x/out.png'')"
    by simp
  have w: "wellFormed (JText ''https://x/out.png'')"
    by auto
  show ?thesis
    using h c w sendCallback_two_calls [OF h c w, of env0 Threw "Replied False"]
    by (simp add: settledJob_def newJob_def env0_def customFieldUrl_def triggerFlowUrl_def
        accessToken_def)
qed

text \<open>
  The other way to the same end: a first image that is an object with a property
  \<open>toString\<close> of its own makes the template literal of line 142 throw.
\<close>

lemma sendCallback_throws:
  "sendCallback env0 ((settledJob 9)\<lparr>images := [JObj [(''toString'', JNum 1)]]\<rparr>) r1 r2
     = (Thrown, [Enter ''job-1''])"
  by (simp add: sendCallback_def settledJob_def newJob_def)

subsection \<open>Registration\<close>

text \<open>
  C9. \<open>addJob\<close> on a request id that the map already holds does not fail: it returns
  and stores a new job that is polling, with poll count 0, no images, no completion time
  and no error, in place of the job that was there, whatever state that job had. The
  keys of the map and the jobs under the other keys are as before.
\<close>

theorem addJob_overwrites:
  assumes "getJob rid t = Some old"
  shows "fst (addJob now rid cid uid t) = newJob now rid cid uid
       \<and> getJob rid (snd (addJob now rid cid uid t)) = Some (newJob now rid cid uid)
       \<and> status (newJob now rid cid uid) = Polling
       \<and> pollCount (newJob now rid cid uid) = 0
       \<and> images (newJob now rid cid uid) = []
       \<and> completedAt (newJob now rid cid uid) = None
       \<and> error (newJob now rid cid uid) = None
       \<and> map fst (jobs (snd (addJob now rid cid uid t))) = map fst (jobs t)
       \<and> (\<forall>k. k \<noteq> rid \<longrightarrow> getJob k (snd (addJob now rid cid uid t)) = getJob k t)"
proof -
  have "rid \<in> set (map fst (jobs t))"
    using assms by (auto simp: getJob_def dest: map_of_SomeD intro: rev_image_eqI)
  then have "map fst (jobs_set rid (newJob now rid cid uid) (jobs t)) = map fst (jobs t)"
    by (rule keys_jobs_set_present)
  then show ?thesis
    by (simp add: addJob_def Let_def startPolling_def getJob_def map_of_jobs_set newJob_def)
qed

theorem addJob_overwrites_witness:
  "getJob ''job-1'' \<lparr>jobs = [(''job-1'', settledJob 9), (''job-2'', settledJob 8)],
        pollInterval = True, firstChecks = []\<rparr>
      = Some (settledJob 9)
   \<and> ''job-2'' \<noteq> ''job-1''
   \<and> getJob ''job-1'' (snd (addJob 50 ''job-1'' ''c-2'' ''u-2''
        \<lparr>jobs = [(''job-1'', settledJob 9), (''job-2'', settledJob 8)],
         pollInterval = True, firstChecks = []\<rparr>))
      = Some \<lparr>requestId = ''job-1'', contactId = ''c-2'', userId = ''u-2'', status = Polling,
          pollCount = 0, images = [], createdAt = 50, completedAt = None, error = None\<rparr>
   \<and> getJob ''job-2'' (snd (addJob 50 ''job-1'' ''c-2'' ''u-2''
        \<lparr>jobs = [(''job-1'', settledJob 9), (''job-2'', settledJob 8)],
         pollInterval = True, firstChecks = []\<rparr>))
      = Some (settledJob 8)"
proof -
  have h: "getJob ''job-1'' \<lparr>jobs = [(''job-1'', settledJob 9), (''job-2'', settledJob 8)],
        pollInterval = True, firstChecks = []\<rparr>
      = Some (settledJob 9)"
    by (simp add: getJob_def)
  show ?thesis
    using h addJob_overwrites [OF h, of 50 "''c-2''" "''u-2''"]
    by (simp add: newJob_def getJob_def)
qed

subsection \<open>Eviction\<close>

lemma map_of_filter_values:
  "distinct (map fst m) \<Longrightarrow>
   map_of (filter (\<lambda>e. P (snd e)) m) k =
     (case map_of m k of None \<Rightarrow> None | Some v \<Rightarrow> if P v then Some v else None)"
proof (induction m)
  case Nil
  then show ?case by simp
next
  case (Cons e m)
  show ?case
  proof (cases "fst e = k")
    case True
    then have "k \<notin> fst ` set m" using Cons.prems by auto
    then have n: "map_of m k = None" by (simp add: map_of_eq_None_iff)
    show ?thesis
      using True n Cons.IH Cons.prems by (cases e) auto
  next
    case False
    then show ?thesis using Cons.IH Cons.prems by (cases e) auto
  qed
qed

lemma map_of_map_values:
  "map_of (map (\<lambda>e. (fst e, g (fst e) (snd e))) m) k = map_option (g k) (map_of m k)"
  by (induction m) auto

text \<open>
  C7, as stated, fails. The eviction loop is part of \<open>pollAllJobs\<close>, which returns at
  line 236 when no job is polling: a job completed more than one hour before stays in
  \<open>getAllJobs\<close> after such a round.
\<close>

theorem eviction_skipped_when_idle:
  "pollAllJobs env0 (\<lambda>k. stillRunning) 3601000 idleTracker = (idleTracker, [])
   \<and> getAllJobs (fst (pollAllJobs env0 (\<lambda>k. stillRunning) 3601000 idleTracker)) = [settledJob 999]
   \<and> completedAt (settledJob 999) = Some 999
   \<and> (3601000::int) - 999 > 3600000"
  by (simp add: pollAllJobs_def idleTracker_def getAllJobs_def settledJob_def newJob_def)

text \<open>
  C7, amended. In a round of \<open>pollAllJobs\<close> in which at least one job is polling, the
  jobs listed afterwards are, in the order of the map, the jobs as the checks of the
  round left them, without exactly those that have a completion time more than one hour
  (3600000 ms) before the clock of the loop. A job completed exactly one hour before
  stays, a job completed one millisecond earlier is gone from \<open>getAllJobs\<close> and from
  \<open>getJob\<close>, and a job without a completion time always stays. (A round in which no
  job is polling removes nothing.)
\<close>

theorem pollAllJobs_evicts:
  assumes "distinct (map fst (jobs t))" and "Polling \<in> set (map status (getAllJobs t))"
  shows "getAllJobs (fst (pollAllJobs env world now t))
           = filter (\<lambda>j. case completedAt j of None \<Rightarrow> True | Some s \<Rightarrow> now - s \<le> 3600000)
               (map (\<lambda>e. fst (tick env (world (fst e)) (snd e))) (jobs t))
       \<and> (\<forall>k. getJob k (fst (pollAllJobs env world now t))
              = (case getJob k t of
                   None \<Rightarrow> None
                 | Some j \<Rightarrow>
                     (case completedAt (fst (tick env (world k) j)) of
                        None \<Rightarrow> Some (fst (tick env (world k) j))
                      | Some s \<Rightarrow> if now - s \<le> 3600000
                                  then Some (fst (tick env (world k) j)) else None)))"
proof -
  let ?m = "map (\<lambda>e. (fst e, fst (tick env (world (fst e)) (snd e)))) (jobs t)"
  let ?keep = "\<lambda>j. case completedAt j of None \<Rightarrow> True | Some s \<Rightarrow> now - s \<le> 3600000"
  have k: "(\<not> expired now j) = ?keep j" for j
    by (auto simp: expired_def split: option.splits)
  have d: "distinct (map fst ?m)" using assms(1) by (simp add: comp_def)
  have p: "filter (\<lambda>e. status (snd e) = Polling) (jobs t) \<noteq> []"
    using assms(2) by (force simp: getAllJobs_def filter_empty_conv)
  have j: "jobs (fst (pollAllJobs env world now t)) = filter (\<lambda>e. ?keep (snd e)) ?m"
    using p by (simp add: pollAllJobs_def cleanup_filter [OF d] k)
  have a: "getAllJobs (fst (pollAllJobs env world now t))
           = filter ?keep (map (\<lambda>e. fst (tick env (world (fst e)) (snd e))) (jobs t))"
    by (simp add: getAllJobs_def j filter_map comp_def)
  have b: "getJob k (fst (pollAllJobs env world now t))
              = (case getJob k t of
                   None \<Rightarrow> None
                 | Some j \<Rightarrow>
                     (case completedAt (fst (tick env (world k) j)) of
                        None \<Rightarrow> Some (fst (tick env (world k) j))
                      | Some s \<Rightarrow> if now - s \<le> 3600000
                                  then Some (fst (tick env (world k) j)) else None))" for k
  proof -
    have f: "map_of (filter (\<lambda>e. ?keep (snd e)) ?m) k
        = (case map_of ?m k of None \<Rightarrow> None | Some v \<Rightarrow> if ?keep v then Some v else None)"
      by (rule map_of_filter_values [OF d])
    have g: "map_of ?m k = map_option (\<lambda>j. fst (tick env (world k) j)) (map_of (jobs t) k)"
      by (rule map_of_map_values [of "\<lambda>k j. fst (tick env (world k) j)"])
    show ?thesis
      by (simp add: getJob_def j f g split: option.splits)
  qed
  show ?thesis using a b by blast
qed

theorem pollAllJobs_evicts_witness:
  "distinct (map fst (jobs busyTracker))
   \<and> Polling \<in> set (map status (getAllJobs busyTracker))
   \<and> getAllJobs (fst (pollAllJobs env0 (\<lambda>k. stillRunning) 3601000 busyTracker))
       = [settledJob 1000, (newJob 5 ''c'' ''c-1'' ''u-1'')\<lparr>pollCount := 1\<rparr>]
   \<and> getJob ''a'' (fst (pollAllJobs env0 (\<lambda>k. stillRunning) 3601000 busyTracker))
       = Some (settledJob 1000)
   \<and> getJob ''b'' (fst (pollAllJobs env0 (\<lambda>k. stillRunning) 3601000 busyTracker)) = None"
proof -
  have h1: "distinct (map fst (jobs busyTracker))"
    by (simp add: busyTracker_def)
  have h2: "Polling \<in> set (map status (getAllJobs busyTracker))"
    by (simp add: busyTracker_def getAllJobs_def newJob_def)
  have t: "tick env0 stillRunning (newJob 5 ''c'' ''c-1'' ''u-1'')
      = ((newJob 5 ''c'' ''c-1'' ''u-1'')\<lparr>pollCount := 1\<rparr>, [])"
    by (simp add: tick_def check_def stillRunning_def checkJobStatus_def payloadOf_def
        extractImages_def statusOf_def js_or_def
        isSuccess_def isFailure_def bump_def newJob_def MAX_POLL_ATTEMPTS_def)
  have s: "tick env0 stillRunning (settledJob n) = (settledJob n, [])" for n
    by (simp add: tick_def settledJob_def)
  have c: "completedAt (settledJob n) = Some n"
    "completedAt (newJob 5 ''c'' ''c-1'' ''u-1'') = None" for n
    by (simp_all add: settledJob_def newJob_def)
  have m: "map (\<lambda>e. fst (tick env0 stillRunning (snd e))) (jobs busyTracker)
      = [settledJob 1000, settledJob 999, (newJob 5 ''c'' ''c-1'' ''u-1'')\<lparr>pollCount := 1\<rparr>]"
    by (simp add: busyTracker_def t s)
  have g: "getJob ''a'' busyTracker = Some (settledJob 1000)"
    "getJob ''b'' busyTracker = Some (settledJob 999)"
    by (simp_all add: getJob_def busyTracker_def)
  note th = pollAllJobs_evicts [OF h1 h2, of env0 "\<lambda>k. stillRunning" 3601000]
  have g1: "getAllJobs (fst (pollAllJobs env0 (\<lambda>k. stillRunning) 3601000 busyTracker))
       = [settledJob 1000, (newJob 5 ''c'' ''c-1'' ''u-1'')\<lparr>pollCount := 1\<rparr>]"
    using th by (simp add: m c)
  have g2: "getJob ''a'' (fst (pollAllJobs env0 (\<lambda>k. stillRunning) 3601000 busyTracker))
       = Some (settledJob 1000)"
    using th by (simp add: g s c)
  have g3: "getJob ''b'' (fst (pollAllJobs env0 (\<lambda>k. stillRunning) 3601000 busyTracker)) = None"
    using th by (simp add: g s c)
  show ?thesis
    using h1 h2 g1 g2 g3 by blast
qed

subsection \<open>Sequences of checks\<close>

lemma ticks_settled: "status job \<noteq> Polling \<Longrightarrow> ticks env as job = (job, [])"
  by (induction as) (simp_all add: tick_def)

lemma ticks_append:
  "ticks env (xs @ ys) job =
     (case ticks env xs job of (j, es) \<Rightarrow>
        (case ticks env ys j of (j', es') \<Rightarrow> (j', es @ es')))"
  by (induction xs arbitrary: job) (auto split: prod.splits)

lemma tick_transient:
  "transient p \<Longrightarrow> status job = Polling \<Longrightarrow>
     tick env (now, p, r1, r2) job = (job\<lparr>pollCount := pollCount job + 1\<rparr>, [])"
  by (cases p)
     (auto simp: tick_def check_def checkJobStatus_def bump_def split: if_splits option.splits)

text \<open>
  Neither failure path looks at \<open>MAX_POLL_ATTEMPTS\<close>: any number of checks that fail
  that way leaves the job polling.
\<close>

lemma ticks_transient:
  "\<forall>a \<in> set as. transient (fst (snd a)) \<Longrightarrow> status job = Polling \<Longrightarrow>
     ticks env as job = (job\<lparr>pollCount := pollCount job + length as\<rparr>, [])"
proof (induction as arbitrary: job)
  case Nil
  then show ?case by simp
next
  case (Cons a as)
  obtain now p r1 r2 where a: "a = (now, p, r1, r2)" by (cases a) auto
  have t: "tick env a job = (job\<lparr>pollCount := pollCount job + 1\<rparr>, [])"
    using Cons.prems by (simp add: a tick_transient)
  have "ticks env as (job\<lparr>pollCount := pollCount job + 1\<rparr>)
      = (job\<lparr>pollCount := pollCount job + 1 + length as\<rparr>, [])"
    using Cons.IH [of "job\<lparr>pollCount := pollCount job + 1\<rparr>"] Cons.prems by simp
  then show ?case by (simp add: t)
qed

lemma tick_running:
  "running p \<Longrightarrow> status job = Polling \<Longrightarrow>
     tick env (now, p, r1, r2) job =
       (if MAX_POLL_ATTEMPTS \<le> pollCount job + 1
        then (job\<lparr>pollCount := pollCount job + 1, status := Failed,
                   error := Some (JText ''Polling timeout - max attempts reached''),
                   completedAt := Some now\<rparr>, [])
        else (job\<lparr>pollCount := pollCount job + 1\<rparr>, []))"
  by (cases p) (auto simp: tick_def check_def checkJobStatus_def bump_def Let_def)

lemma ticks_running_below:
  "\<forall>a \<in> set as. running (fst (snd a)) \<Longrightarrow> status job = Polling \<Longrightarrow>
   pollCount job + length as < MAX_POLL_ATTEMPTS \<Longrightarrow>
     ticks env as job = (job\<lparr>pollCount := pollCount job + length as\<rparr>, [])"
proof (induction as arbitrary: job)
  case Nil
  then show ?case by simp
next
  case (Cons a as)
  obtain now p r1 r2 where a: "a = (now, p, r1, r2)" by (cases a) auto
  have t: "tick env a job = (job\<lparr>pollCount := pollCount job + 1\<rparr>, [])"
    using Cons.prems by (simp add: a tick_running)
  have "ticks env as (job\<lparr>pollCount := pollCount job + 1\<rparr>)
      = (job\<lparr>pollCount := pollCount job + 1 + length as\<rparr>, [])"
    using Cons.IH [of "job\<lparr>pollCount := pollCount job + 1\<rparr>"] Cons.prems by simp
  then show ?case by (simp add: t)
qed

text \<open>
  What does hold: when all of \<open>MAX_POLL_ATTEMPTS\<close> consecutive checks of a new job
  take the branch "still processing", the last of them fails the job with the timeout
  message.
\<close>

lemma ticks_running_timeout:
  assumes "\<forall>a \<in> set as. running (fst (snd a))" and "running p"
    and "length as + 1 = MAX_POLL_ATTEMPTS"
  shows "ticks env (as @ [(now, p, r1, r2)]) (newJob t0 rid cid uid)
         = ((newJob t0 rid cid uid)\<lparr>pollCount := MAX_POLL_ATTEMPTS, status := Failed,
               error := Some (JText ''Polling timeout - max attempts reached''),
               completedAt := Some now\<rparr>, [])"
proof -
  have "ticks env as (newJob t0 rid cid uid)
      = ((newJob t0 rid cid uid)\<lparr>pollCount := length as\<rparr>, [])"
    using ticks_running_below [of as "newJob t0 rid cid uid" env] assms
    by (simp add: newJob_def)
  then show ?thesis
    using assms by (simp add: ticks_append tick_running newJob_def)
qed

text \<open>
  The job of the counterexample to C10 is the job that \<open>addJob\<close> made, after 29
  checks answered by a 2xx response whose body does not parse.
\<close>

lemma twenty_nine_unparsable_bodies:
  "ticks env0 (replicate 29 (9, Response True None, Threw, Threw))
      (newJob 0 ''job-1'' ''c-1'' ''u-1'')
   = ((newJob 0 ''job-1'' ''c-1'' ''u-1'')\<lparr>pollCount := 29\<rparr>, [])"
proof -
  have "running (Response True None)"
    by (simp add: payloadOf_def null_payload)
  then show ?thesis
    using ticks_running_below [of "replicate 29 (9, Response True None, Threw, Threw)"
        "newJob 0 ''job-1'' ''c-1'' ''u-1''" env0]
    by (simp add: newJob_def MAX_POLL_ATTEMPTS_def)
qed

text \<open>
  C1. The claim fails on the code. A response that is not ok returns at line 68 after
  \<open>pollCount++\<close>, before the test against \<open>MAX_POLL_ATTEMPTS\<close> of line 113 is
  reached: after 30 consecutive checks answered by such a response the job is still
  polling, with poll count 30, no error and no completion time.
\<close>

theorem not_ok_responses_never_time_out:
  "ticks env0 (replicate MAX_POLL_ATTEMPTS (0, Response False None, Threw, Threw))
      (newJob 0 ''job-1'' ''c-1'' ''u-1'')
   = (\<lparr>requestId = ''job-1'', contactId = ''c-1'', userId = ''u-1'', status = Polling,
       pollCount = 30, images = [], createdAt = 0, completedAt = None, error = None\<rparr>, [])"
  by (simp add: ticks_transient newJob_def MAX_POLL_ATTEMPTS_def)

subsection \<open>Images and status\<close>

lemma check_images:
  "status job = Polling \<Longrightarrow> images job = [] \<Longrightarrow>
   images (fst (checkJobStatus env now p r1 r2 job)) \<noteq> []
     \<longrightarrow> status (fst (checkJobStatus env now p r1 r2 job)) = Succeeded"
  by (simp add: checkJobStatus_def Let_def bump_def after_sendCallback
        split: probe.splits option.splits completion.splits)

lemma tick_images:
  assumes "images job \<noteq> [] \<longrightarrow> status job = Succeeded"
  shows "images (fst (tick env a job)) \<noteq> [] \<longrightarrow> status (fst (tick env a job)) = Succeeded"
proof (cases "status job = Polling")
  case False
  then show ?thesis using assms by (simp add: tick_def)
next
  case True
  then have e: "images job = []" using assms by auto
  obtain now p r1 r2 where a: "a = (now, p, r1, r2)" by (cases a) auto
  show ?thesis
    using check_images [OF True e, of env now p r1 r2] True by (simp add: tick_def check_def a)
qed

lemma ticks_images:
  "images job \<noteq> [] \<longrightarrow> status job = Succeeded \<Longrightarrow>
   images (fst (ticks env as job)) \<noteq> [] \<longrightarrow> status (fst (ticks env as job)) = Succeeded"
proof (induction as arbitrary: job)
  case Nil
  then show ?case by simp
next
  case (Cons a as)
  have "images (fst (tick env a job)) \<noteq> [] \<longrightarrow> status (fst (tick env a job)) = Succeeded"
    using Cons.prems by (rule tick_images)
  then show ?case
    using Cons.IH [of "fst (tick env a job)"] by (auto split: prod.splits)
qed

text \<open>
  C2, as stated, fails: a response that reports completion without any image makes the
  job succeeded with an empty image list.
\<close>

theorem succeeded_with_no_images:
  "\<not> (images (fst (ticks env0 [completedEmpty] (newJob 0 ''job-1'' ''c-1'' ''u-1''))) \<noteq> []
       \<longleftrightarrow> status (fst (ticks env0 [completedEmpty] (newJob 0 ''job-1'' ''c-1'' ''u-1''))) = Succeeded)"
  by (simp add: completedEmpty_def tick_def check_def checkJobStatus_def Let_def newJob_def
      extractImages_def statusOf_def js_or_def isSuccess_def payloadOf_def sendCallback_def)

text \<open>
  C2, amended. For a job made by \<open>addJob\<close> and taken through any sequence of checks,
  each started on a polling job and settled before the next starts, a non-empty image
  list implies that the job is succeeded.
\<close>

theorem images_only_when_succeeded:
  assumes "images (fst (ticks env as (newJob now rid cid uid))) \<noteq> []"
  shows "status (fst (ticks env as (newJob now rid cid uid))) = Succeeded"
  using assms ticks_images [of "newJob now rid cid uid" env as] by (simp add: newJob_def)

theorem images_only_when_succeeded_witness:
  "images (fst (ticks env0 [stillRunning, completedOne] (newJob 0 ''job-1'' ''c-1'' ''u-1'')))
     = [JText ''https://x/out.png'']
   \<and> status (fst (ticks env0 [stillRunning, completedOne] (newJob 0 ''job-1'' ''c-1'' ''u-1''))) = Succeeded"
proof -
  have h: "images (fst (ticks env0 [stillRunning, completedOne] (newJob 0 ''job-1'' ''c-1'' ''u-1'')))
     = [JText ''https://x/out.png'']"
    by (simp add: completedOne_def stillRunning_def tick_def check_def checkJobStatus_def Let_def
        newJob_def extractImages_def statusOf_def js_or_def bump_def MAX_POLL_ATTEMPTS_def
        isSuccess_def isFailure_def payloadOf_def sendCallback_def)
  then have "images (fst (ticks env0 [stillRunning, completedOne] (newJob 0 ''job-1'' ''c-1'' ''u-1''))) \<noteq> []"
    by simp
  from images_only_when_succeeded [OF this] h show ?thesis by simp
qed

subsection \<open>Entries into sendCallback\<close>

lemma enters_callbackLine: "isEnter (callbackLine n r) = False"
  by (cases "(n, r)" rule: callbackLine.cases) simp_all

lemma enters_sendCallback:
  "filter isEnter (snd (sendCallback env j r1 r2)) = [Enter (requestId j)]"
  by (simp add: sendCallback_def enters_callbackLine split: list.splits)

lemma check_enters:
  "length (filter isEnter (snd (checkJobStatus env now p r1 r2 job))) \<le> 1
   \<and> (filter isEnter (snd (checkJobStatus env now p r1 r2 job)) \<noteq> []
        \<longrightarrow> status (fst (checkJobStatus env now p r1 r2 job)) = Succeeded)"
  by (simp add: checkJobStatus_def Let_def bump_def after_sendCallback enters_sendCallback
        split: probe.splits option.splits completion.splits)

lemma tick_enters:
  "length (filter isEnter (snd (tick env a job))) \<le> 1
   \<and> (filter isEnter (snd (tick env a job)) \<noteq> [] \<longrightarrow> status (fst (tick env a job)) = Succeeded)"
proof -
  obtain now p r1 r2 where a: "a = (now, p, r1, r2)" by (cases a) auto
  show ?thesis
    using check_enters [of env now p r1 r2 job] by (simp add: tick_def check_def a)
qed

text \<open>
  What does hold: when every check of a job runs to its end before the next one starts,
  \<open>sendCallback\<close> is entered at most once, and only by the check that makes the job
  succeeded.
\<close>

lemma sequential_ticks_dispatch_at_most_once:
  "length (filter isEnter (snd (ticks env as job))) \<le> 1"
proof (induction as arbitrary: job)
  case Nil
  then show ?case by simp
next
  case (Cons a as)
  show ?case
  proof (cases "filter isEnter (snd (tick env a job)) = []")
    case True
    then show ?thesis
      using Cons.IH [of "fst (tick env a job)"] by (auto split: prod.splits)
  next
    case False
    then have "status (fst (tick env a job)) \<noteq> Polling"
      using tick_enters [of env a job] by auto
    then have "ticks env as (fst (tick env a job)) = (fst (tick env a job), [])"
      by (rule ticks_settled)
    then show ?thesis
      using tick_enters [of env a job] by (auto split: prod.splits)
  qed
qed

subsection \<open>Checks in flight\<close>

lemma awaits_callbackLine: "awaits (callbackLine n r) = False"
  by (cases "(n, r)" rule: callbackLine.cases) simp_all

text \<open>The pieces of the trace of \<open>sendCallback\<close>.\<close>

lemma cut_sendCallback:
  "cut (snd (sendCallback env j r1 r2)) =
     (case images j of
        [] \<Rightarrow> [[Enter (requestId j), ConsoleError ''No images to send'']]
      | u # rest \<Rightarrow>
          if convertible u \<and> wellFormed u
          then [[Enter (requestId j),
                 Fetch (customFieldUrl env j) (accessToken env) (FormValue u)],
                [callbackLine ''1'' r1, Delay CALLBACK_2_DELAY_MS],
                [Fetch (triggerFlowUrl env j) (accessToken env) NoBody],
                [callbackLine ''2'' r2]]
          else [[Enter (requestId j)]])"
  by (simp add: sendCallback_def awaits_callbackLine split: list.splits)

lemma trace_of_check:
  "snd (checkJobStatus env now p r1 r2 job) = []
   \<or> (\<exists>j. snd (checkJobStatus env now p r1 r2 job) = snd (sendCallback env j r1 r2))"
  by (auto simp: checkJobStatus_def Let_def after_sendCallback
        split: probe.splits option.splits)

text \<open>
  A check that is alone in flight, settled and then resumed until nothing is parked,
  is the check as a whole.
\<close>

lemma settle_then_drain:
  "foldl (act env) (job, Suc n, [], tr) [Settle a, Resume 0, Resume 0, Resume 0]
     = (fst (check env a job), n, [], tr @ snd (check env a job))"
proof -
  obtain now p r1 r2 where a: "a = (now, p, r1, r2)" by (cases a) auto
  obtain job' es where c: "check env a job = (job', es)" by (cases "check env a job") auto
  then have "es = [] \<or> (\<exists>j. es = snd (sendCallback env j r1 r2))"
    using trace_of_check [of env now p r1 r2 job] by (simp add: check_def a)
  then show ?thesis
  proof
    assume "es = []"
    then show ?thesis by (simp add: c)
  next
    assume "\<exists>j. es = snd (sendCallback env j r1 r2)"
    then obtain j where e: "es = snd (sendCallback env j r1 r2)" by blast
    have s: "snd (sendCallback env j r1 r2) = concat (cut (snd (sendCallback env j r1 r2)))"
      by (simp add: sendCallback_def split: list.splits)
    show ?thesis
      by (simp add: c e, subst (2) s) (simp add: cut_sendCallback park_def split: list.splits)
  qed
qed

text \<open>Checks that never overlap are the sequences of \<open>ticks\<close>.\<close>

lemma run_sequential:
  "foldl (act env) (job, 0, [], tr)
      (concat (map (\<lambda>a. [Begin, Settle a, Resume 0, Resume 0, Resume 0]) as))
     = (fst (ticks env as job), 0, [], tr @ snd (ticks env as job))"
proof (induction as arbitrary: job tr)
  case Nil
  then show ?case by simp
next
  case (Cons a as)
  have "foldl (act env) (job, 0, [], tr) [Begin, Settle a, Resume 0, Resume 0, Resume 0]
      = (fst (tick env a job), 0, [], tr @ snd (tick env a job))"
  proof (cases "status job = Polling")
    case True
    then show ?thesis
      using settle_then_drain [of env job 0 tr a] by (simp add: tick_def)
  next
    case False
    then show ?thesis by (simp add: tick_def)
  qed
  then have "foldl (act env) (job, 0, [], tr)
        ([Begin, Settle a, Resume 0, Resume 0, Resume 0]
          @ concat (map (\<lambda>a. [Begin, Settle a, Resume 0, Resume 0, Resume 0]) as))
      = foldl (act env) (fst (tick env a job), 0, [], tr @ snd (tick env a job))
          (concat (map (\<lambda>a. [Begin, Settle a, Resume 0, Resume 0, Resume 0]) as))"
    by (simp only: foldl_append)
  also have "\<dots> = (fst (ticks env as (fst (tick env a job))), 0, [],
        (tr @ snd (tick env a job)) @ snd (ticks env as (fst (tick env a job))))"
    by (rule Cons.IH)
  finally show ?case
    by (simp add: case_prod_beta)
qed

text \<open>
  C3. The claim fails on the code. The test \<open>status === "polling"\<close> is made when a
  check starts (lines 233 and 289), not when its status request settles. Two checks of
  one job that are both in flight, the first check of \<open>addJob\<close> and a round of the
  interval, or two rounds of the interval, both pass the test; when both are answered
  with a completed status, each sets the job succeeded and enters \<open>sendCallback\<close>:
  the second time on a job that is already succeeded, and both requests go out twice.
  In the run below the two status requests settle one after the other and the awaits of
  the two \<open>sendCallback\<close>s are then answered in turn.
\<close>

theorem overlapping_checks_dispatch_twice:
  "run env0 [Begin, Begin, Settle completedOne, Settle completedOne,
             Resume 0, Resume (Suc 0), Resume 0, Resume (Suc 0), Resume 0, Resume 0]
       (newJob 0 ''job-1'' ''c-1'' ''u-1'')
   = (\<lparr>requestId = ''job-1'', contactId = ''c-1'', userId = ''u-1'', status = Succeeded,
       pollCount = 0, images = [JText ''https://x/out.png''], createdAt = 0,
       completedAt = Some 7, error = None\<rparr>, 0, [],
      [Enter ''job-1'',
        Fetch ''https://app.chatgptbuilder.io/api/contacts/c-1/custom_fields/871218''
          ''1234372.w5LIIOK11XiUEEU4X6qnzjvwE7YXpQ0x'' (FormValue (JText ''https://x/out.png'')),
       Enter ''job-1'',
        Fetch ''https://app.chatgptbuilder.io/api/contacts/c-1/custom_fields/871218''
          ''1234372.w5LIIOK11XiUEEU4X6qnzjvwE7YXpQ0x'' (FormValue (JText ''https://x/out.png'')),
       ConsoleLog ''CALLBACK 1 SUCCESS'',
       Delay 15000,
       ConsoleLog ''CALLBACK 1 SUCCESS'',
       Delay 15000,
       Fetch ''https://app.chatgptbuilder.io/api/contacts/c-1/send/1760629479392''
          ''1234372.w5LIIOK11XiUEEU4X6qnzjvwE7YXpQ0x'' NoBody,
       Fetch ''https://app.chatgptbuilder.io/api/contacts/c-1/send/1760629479392''
          ''1234372.w5LIIOK11XiUEEU4X6qnzjvwE7YXpQ0x'' NoBody,
       ConsoleLog ''CALLBACK 2 SUCCESS'',
       ConsoleLog ''CALLBACK 2 SUCCESS''])
   \<and> length (filter isEnter (snd (snd (snd (run env0
         [Begin, Begin, Settle completedOne, Settle completedOne,
          Resume 0, Resume (Suc 0), Resume 0, Resume (Suc 0), Resume 0, Resume 0]
         (newJob 0 ''job-1'' ''c-1'' ''u-1'')))))) = 2
   \<and> length (filter isFetch (snd (snd (snd (run env0
         [Begin, Begin, Settle completedOne, Settle completedOne,
          Resume 0, Resume (Suc 0), Resume 0, Resume (Suc 0), Resume 0, Resume 0]
         (newJob 0 ''job-1'' ''c-1'' ''u-1'')))))) = 4"
  by (simp add: run_def completedOne_def check_def checkJobStatus_def Let_def
        newJob_def extractImages_def statusOf_def js_or_def sendCallback_def env0_def
        isSuccess_def payloadOf_def park_def
        customFieldUrl_def triggerFlowUrl_def accessToken_def CALLBACK_2_DELAY_MS_def)

subsection \<open>The image list of a response\<close>

lemma isArray_truthy: "isArray v \<Longrightarrow> truthy_opt v"
  by (cases v rule: isArray.cases) simp_all

lemma elems_not_array: "\<not> isArray v \<Longrightarrow> elems v = []"
  by (cases v rule: isArray.cases) simp_all

text \<open>
  C4, as stated, fails: an \<open>images\<close> array that is present and empty wins over a
  non-empty \<open>image_urls\<close>, because an empty array is truthy.
\<close>

theorem empty_images_shadow_image_urls:
  "extractImages (JObj [(''status'', JText ''completed''), (''images'', JArr []),
                        (''image_urls'', JArr [JText ''https://x/out.png''])]) = Some []
   \<and> firstNonEmpty (JObj [(''status'', JText ''completed''), (''images'', JArr []),
                        (''image_urls'', JArr [JText ''https://x/out.png''])])
        = [JText ''https://x/out.png'']"
  by (simp add: extractImages_def firstNonEmpty_def locations_def)

text \<open>
  C4, amended. The four fields are checked in the order \<open>images\<close>, \<open>image_urls\<close>,
  \<open>outputs\<close>, \<open>result\<close>, and the first that is present wins, whether or not the
  list it gives is empty: \<open>images\<close> when it is an array, giving the truthy values that
  its elements map to; otherwise the first of the other three that is truthy, giving its
  elements if it is an array and the empty list if it is not; and the empty list when
  none is present. This is stated for a response whose \<open>images\<close> can be mapped
  without an exception.
\<close>

theorem extractImages_first_present:
  assumes "mapImages (elems (getProp payload ''images'')) = Some us"
  shows "extractImages payload =
           Some (if isArray (getProp payload ''images'') then filter truthy us
                 else case find (\<lambda>k. truthy_opt (getProp payload k))
                             [''image_urls'', ''outputs'', ''result''] of
                        None \<Rightarrow> []
                      | Some k \<Rightarrow> elems (getProp payload k))"
  using assms by (auto simp: extractImages_def isArray_truthy elems_not_array)

theorem extractImages_first_present_witness:
  "mapImages (elems (getProp (JObj [(''status'', JText ''completed''),
       (''image_urls'', JText ''none''), (''outputs'', JArr [JText ''https://x/out.png''])])
       ''images'')) = Some []
   \<and> extractImages (JObj [(''status'', JText ''completed''),
       (''image_urls'', JText ''none''), (''outputs'', JArr [JText ''https://x/out.png''])])
     = Some []"
proof -
  have h: "mapImages (elems (getProp (JObj [(''status'', JText ''completed''),
       (''image_urls'', JText ''none''), (''outputs'', JArr [JText ''https://x/out.png''])])
       ''images'')) = Some []"
    by simp
  show ?thesis
    using h extractImages_first_present [OF h] by simp
qed

subsection \<open>The status words\<close>

text \<open>
  What does hold: for a response that is ok and whose images can be read, a polling job
  becomes succeeded exactly when the status, read from \<open>status\<close> or else from
  \<open>state\<close>, is \<open>completed\<close> or \<open>succeeded\<close>.
\<close>

lemma success_iff_spelling:
  assumes "extractImages payload = Some imgs" and "status job = Polling"
  shows "status (fst (checkJobStatus env now (Response True (Some payload)) r1 r2 job)) = Succeeded
     \<longleftrightarrow> statusOf payload = Some (JText ''completed'') \<or> statusOf payload = Some (JText ''succeeded'')"
proof (cases "isSuccess payload")
  case True
  then show ?thesis
    using assms isSuccess_convertible [OF True]
    by (simp add: checkJobStatus_def payloadOf_def Let_def bump_def after_sendCallback
        split: completion.splits) (simp add: isSuccess_def)
next
  case False
  then show ?thesis
    using assms
    by (simp add: checkJobStatus_def payloadOf_def Let_def bump_def)
       (simp add: isSuccess_def)
qed

text \<open>
  C8. The claim fails on the code. A response that is ok and has the status
  \<open>completed\<close>, but lists \<open>null\<close> among its \<open>images\<close>, is not taken as a
  success: \<open>typeof null === "object"\<close> holds, reading \<open>null.url\<close> throws inside
  the try block before line 95 is reached, and the catch block only increments the poll
  count. The job stays polling.
\<close>

theorem null_image_blocks_completion:
  "isSuccess (JObj [(''status'', JText ''completed''), (''images'', JArr [JNull])])
   \<and> checkJobStatus env0 7
       (Response True (Some (JObj [(''status'', JText ''completed''), (''images'', JArr [JNull])])))
       (Replied True) (Replied True) (newJob 0 ''job-1'' ''c-1'' ''u-1'')
     = (\<lparr>requestId = ''job-1'', contactId = ''c-1'', userId = ''u-1'', status = Polling,
         pollCount = 1, images = [], createdAt = 0, completedAt = None, error = None\<rparr>, [])"
  by (simp add: isSuccess_def statusOf_def js_or_def checkJobStatus_def payloadOf_def
      extractImages_def bump_def newJob_def)

end
